theory Spec2Isabelle
  imports Complex_Main
begin

section \<open>Data model of the particle simulation\<close>

text \<open>
  The simulation lives in \<^verbatim>\<open>Part2/ParticleVisualize.cpp\<close>; a second copy of
  \<^verbatim>\<open>ResolveCollision\<close> (same statements, other constants) is the unnamed header.
  The C++ \<^verbatim>\<open>float\<close> is read as a real number: rounding, overflow, infinities and
  NaN are not represented. The one float operation whose result has no real counterpart,
  a division by zero, is made explicit: it yields \<open>None\<close>.
\<close>

record Vector2 =
  x :: real
  y :: real

record Particle =
  position :: Vector2
  velocity :: Vector2

text \<open>
  The globals \<^verbatim>\<open>radius\<close> and \<^verbatim>\<open>areaSize\<close> (4 and 600 in
  \<^verbatim>\<open>ParticleVisualize.cpp\<close>, 0.5 and 100 in the header), the local constant
  \<^verbatim>\<open>p\<close> / \<^verbatim>\<open>perturbation\<close> (0.01 in both) and the stream of values
  \<^verbatim>\<open>std::rand() / (float)RAND_MAX\<close> (\<open>rand_unit k\<close> is the value of the
  \<open>k\<close>-th call) are the parameters of the model.
\<close>

record config =
  radius :: real
  areaSize :: real
  perturbation :: real
  rand_unit :: "nat \<Rightarrow> real"

text \<open>
  The mutable state: the global vector \<^verbatim>\<open>particles\<close>, the number of calls made to
  \<^verbatim>\<open>std::rand\<close> so far, and a ghost log \<open>resolved\<close> of the index pairs that
  the narrow phase has passed to \<^verbatim>\<open>ResolveCollision\<close> (no code reads it).
\<close>

record sim =
  particles :: "Particle list"
  rand_calls :: nat
  resolved :: "(nat \<times> nat) list"

definition visualize_config :: "(nat \<Rightarrow> real) \<Rightarrow> config" where
  "visualize_config rnd = \<lparr>radius = 4, areaSize = 600, perturbation = 1 / 100, rand_unit = rnd\<rparr>"

definition header_config :: "(nat \<Rightarrow> real) \<Rightarrow> config" where
  "header_config rnd = \<lparr>radius = 1 / 2, areaSize = 100, perturbation = 1 / 100, rand_unit = rnd\<rparr>"

definition fdiv :: "real \<Rightarrow> real \<Rightarrow> real option" where
  "fdiv a b = (if b = 0 then None else Some (a / b))"

definition half :: "config \<Rightarrow> real" where
  "half cfg = areaSize cfg * (1 / 2)"

definition cellSize :: "config \<Rightarrow> real" where
  "cellSize cfg = 2 * radius cfg"

section \<open>Integration and wall bounces\<close>

text \<open>
  One iteration of the first loop of \<^verbatim>\<open>StepSimulation\<close>: advance one axis, then
  the \<^verbatim>\<open>if / else if\<close> against the two walls of that axis. The result is the new
  coordinate and the new velocity component.
\<close>

definition bounce_axis :: "config \<Rightarrow> real \<Rightarrow> real \<Rightarrow> real \<Rightarrow> real \<times> real" where
  "bounce_axis cfg dt pos vel =
     (let pos1 = pos + vel * dt in
      if pos1 - radius cfg < - half cfg then (- half cfg + radius cfg, vel * (- 1))
      else if pos1 + radius cfg > half cfg then (half cfg - radius cfg, vel * (- 1))
      else (pos1, vel))"

definition integrate :: "config \<Rightarrow> real \<Rightarrow> Particle \<Rightarrow> Particle" where
  "integrate cfg dt particle =
     (let ax = bounce_axis cfg dt (x (position particle)) (x (velocity particle));
          ay = bounce_axis cfg dt (y (position particle)) (y (velocity particle))
      in \<lparr>position = \<lparr>x = fst ax, y = fst ay\<rparr>, velocity = \<lparr>x = snd ax, y = snd ay\<rparr>\<rparr>)"

section \<open>Collision resolution\<close>

text \<open>
  In-place updates of one field of \<^verbatim>\<open>particles[k]\<close>. The source indexes the vector
  without a bounds check; the model is meant for indices below the length of the list.
\<close>

definition upd_position_x :: "nat \<Rightarrow> (real \<Rightarrow> real) \<Rightarrow> Particle list \<Rightarrow> Particle list" where
  "upd_position_x k f ps =
     ps[k := (ps ! k)\<lparr>position := (position (ps ! k))\<lparr>x := f (x (position (ps ! k)))\<rparr>\<rparr>]"

definition upd_position_y :: "nat \<Rightarrow> (real \<Rightarrow> real) \<Rightarrow> Particle list \<Rightarrow> Particle list" where
  "upd_position_y k f ps =
     ps[k := (ps ! k)\<lparr>position := (position (ps ! k))\<lparr>y := f (y (position (ps ! k)))\<rparr>\<rparr>]"

definition upd_velocity_x :: "nat \<Rightarrow> (real \<Rightarrow> real) \<Rightarrow> Particle list \<Rightarrow> Particle list" where
  "upd_velocity_x k f ps =
     ps[k := (ps ! k)\<lparr>velocity := (velocity (ps ! k))\<lparr>x := f (x (velocity (ps ! k)))\<rparr>\<rparr>]"

definition upd_velocity_y :: "nat \<Rightarrow> (real \<Rightarrow> real) \<Rightarrow> Particle list \<Rightarrow> Particle list" where
  "upd_velocity_y k f ps =
     ps[k := (ps ! k)\<lparr>velocity := (velocity (ps ! k))\<lparr>y := f (y (velocity (ps ! k)))\<rparr>\<rparr>]"

text \<open>\<^verbatim>\<open>std::swap\<close> on one velocity component of two particles.\<close>

definition swap_velocity_x :: "nat \<Rightarrow> nat \<Rightarrow> Particle list \<Rightarrow> Particle list" where
  "swap_velocity_x i j ps =
     (let a = x (velocity (ps ! i)); b = x (velocity (ps ! j))
      in upd_velocity_x j (\<lambda>_. a) (upd_velocity_x i (\<lambda>_. b) ps))"

definition swap_velocity_y :: "nat \<Rightarrow> nat \<Rightarrow> Particle list \<Rightarrow> Particle list" where
  "swap_velocity_y i j ps =
     (let a = y (velocity (ps ! i)); b = y (velocity (ps ! j))
      in upd_velocity_y j (\<lambda>_. a) (upd_velocity_y i (\<lambda>_. b) ps))"

text \<open>
  The four perturbation statements at the end of the collision branch: four successive
  calls of \<^verbatim>\<open>std::rand\<close>, numbered from \<open>k\<close>.
\<close>

definition perturb :: "config \<Rightarrow> nat \<Rightarrow> nat \<Rightarrow> nat \<Rightarrow> Particle list \<Rightarrow> Particle list" where
  "perturb cfg k i j ps =
     (let p = perturbation cfg;
          ps1 = upd_velocity_x i (\<lambda>v. v + (rand_unit cfg k - 1 / 2) * p) ps;
          ps2 = upd_velocity_y i (\<lambda>v. v + (rand_unit cfg (k + 1) - 1 / 2) * p) ps1;
          ps3 = upd_velocity_x j (\<lambda>v. v + (rand_unit cfg (k + 2) - 1 / 2) * p) ps2;
          ps4 = upd_velocity_y j (\<lambda>v. v + (rand_unit cfg (k + 3) - 1 / 2) * p) ps3
      in ps4)"

text \<open>
  The collision branch of \<^verbatim>\<open>ResolveCollision\<close>, from the normal \<open>(nx, ny)\<close> and the
  \<open>overlap\<close> on: positional correction, velocity swap, perturbation.
\<close>

definition separate :: "nat \<Rightarrow> nat \<Rightarrow> real \<Rightarrow> real \<Rightarrow> real \<Rightarrow> Particle list \<Rightarrow> Particle list" where
  "separate i j nx ny overlap ps =
     (let ps1 = upd_position_x i (\<lambda>v. v - nx * overlap) ps;
          ps2 = upd_position_y i (\<lambda>v. v - ny * overlap) ps1;
          ps3 = upd_position_x j (\<lambda>v. v + nx * overlap) ps2;
          ps4 = upd_position_y j (\<lambda>v. v + ny * overlap) ps3
      in ps4)"

definition ResolveCollision :: "config \<Rightarrow> nat \<Rightarrow> nat \<Rightarrow> sim \<Rightarrow> sim option" where
  "ResolveCollision cfg i j s =
     (let ps = particles s;
          dx0 = x (position (ps ! j)) - x (position (ps ! i));
          dy0 = y (position (ps ! j)) - y (position (ps ! i));
          dist20 = dx0 * dx0 + dy0 * dy0;
          minDist = 2 * radius cfg;
          dx = (if dist20 = 0 then 1 / 1000 else dx0);
          dy = (if dist20 = 0 then 0 else dy0);
          dist2 = (if dist20 = 0 then dx * dx + dy * dy else dist20)
      in if dist2 < minDist * minDist then
           (let dist = sqrt dist2 in
            case fdiv dx dist of None \<Rightarrow> None | Some nx \<Rightarrow>
           (case fdiv dy dist of None \<Rightarrow> None | Some ny \<Rightarrow>
              (let overlap = (1 / 2) * (minDist - dist);
                   ps1 = separate i j nx ny overlap ps;
                   ps2 = swap_velocity_y i j (swap_velocity_x i j ps1);
                   ps3 = perturb cfg (rand_calls s) i j ps2
               in Some (s\<lparr>particles := ps3, rand_calls := rand_calls s + 4\<rparr>))))
         else Some s)"

section \<open>Spatial hash grid and narrow phase\<close>

text \<open>
  A \<^verbatim>\<open>Cell\<close> is a pair of C++ \<^verbatim>\<open>int\<close>s, read here as unbounded integers (the
  cast of an out-of-range float to \<^verbatim>\<open>int\<close> is undefined in C++). The
  \<^verbatim>\<open>unordered_map\<close> from cells to index vectors is a partial map; its hash function
  plays no role, since \<^verbatim>\<open>CellEq\<close> is equality of both coordinates.
\<close>

type_synonym Cell = "int \<times> int"

type_synonym Grid = "Cell \<rightharpoonup> nat list"

text \<open>A loop over a list whose body may fail (a division by zero), with the state threaded.\<close>

fun for_each :: "('a \<Rightarrow> 's \<Rightarrow> 's option) \<Rightarrow> 'a list \<Rightarrow> 's \<Rightarrow> 's option" where
  "for_each body [] s = Some s"
| "for_each body (a # as) s =
     (case body a s of None \<Rightarrow> None | Some s' \<Rightarrow> for_each body as s')"

definition cell_of :: "config \<Rightarrow> Vector2 \<Rightarrow> Cell option" where
  "cell_of cfg pos =
     (case fdiv (x pos + half cfg) (cellSize cfg) of None \<Rightarrow> None | Some qx \<Rightarrow>
     (case fdiv (y pos + half cfg) (cellSize cfg) of None \<Rightarrow> None | Some qy \<Rightarrow>
        Some (\<lfloor>qx\<rfloor>, \<lfloor>qy\<rfloor>)))"

definition bucket :: "Grid \<Rightarrow> Cell \<Rightarrow> nat list" where
  "bucket grid c = (case grid c of None \<Rightarrow> [] | Some b \<Rightarrow> b)"

text \<open>\<^verbatim>\<open>grid[Cell{cx, cy}].push_back(i)\<close>: a missing bucket is created empty first.\<close>

definition grid_insert :: "config \<Rightarrow> Particle list \<Rightarrow> nat \<Rightarrow> Grid \<Rightarrow> Grid option" where
  "grid_insert cfg ps i grid =
     (case cell_of cfg (position (ps ! i)) of None \<Rightarrow> None
      | Some c \<Rightarrow> Some (grid(c \<mapsto> bucket grid c @ [i])))"

definition build_grid :: "config \<Rightarrow> Particle list \<Rightarrow> Grid option" where
  "build_grid cfg ps = for_each (grid_insert cfg ps) [0..<length ps] Map.empty"

text \<open>The nine cells of the two nested loops over \<open>nx\<close> and \<open>ny\<close>, in loop order.\<close>

definition neighbourhood :: "Cell \<Rightarrow> Cell list" where
  "neighbourhood c =
     [(nx, ny). nx \<leftarrow> [fst c - 1, fst c, fst c + 1], ny \<leftarrow> [snd c - 1, snd c, snd c + 1]]"

text \<open>
  The candidates \<open>j\<close> met by the scan of one particle, in the order the loops visit
  them; a cell with no bucket (\<^verbatim>\<open>it == grid.end()\<close>) contributes nothing.
\<close>

definition candidates :: "Grid \<Rightarrow> Cell \<Rightarrow> nat list" where
  "candidates grid c = concat (map (bucket grid) (neighbourhood c))"

text \<open>The body of the innermost loop, for one candidate \<open>j\<close> of particle \<open>i\<close>.\<close>

definition narrow_pair :: "config \<Rightarrow> nat \<Rightarrow> nat \<Rightarrow> sim \<Rightarrow> sim option" where
  "narrow_pair cfg i j s =
     (if j \<le> i then Some s
      else
        (let ps = particles s;
             dx = x (position (ps ! j)) - x (position (ps ! i));
             dy = y (position (ps ! j)) - y (position (ps ! i));
             distSq = dx * dx + dy * dy
         in if distSq < (2 * radius cfg) * (2 * radius cfg)
            then ResolveCollision cfg i j (s\<lparr>resolved := resolved s @ [(i, j)]\<rparr>)
            else Some s))"

text \<open>
  One iteration of the outer narrow-phase loop: the cell of particle \<open>i\<close> is computed
  from its current position, the grid is the one built before the loop.
\<close>

definition narrow_particle :: "config \<Rightarrow> Grid \<Rightarrow> nat \<Rightarrow> sim \<Rightarrow> sim option" where
  "narrow_particle cfg grid i s =
     (case cell_of cfg (position (particles s ! i)) of None \<Rightarrow> None
      | Some c \<Rightarrow> for_each (narrow_pair cfg i) (candidates grid c) s)"

definition narrow_phase :: "config \<Rightarrow> Grid \<Rightarrow> sim \<Rightarrow> sim option" where
  "narrow_phase cfg grid s = for_each (narrow_particle cfg grid) [0..<length (particles s)] s"

section \<open>The simulation step\<close>

definition integrate_all :: "config \<Rightarrow> real \<Rightarrow> sim \<Rightarrow> sim" where
  "integrate_all cfg dt s = s\<lparr>particles := map (integrate cfg dt) (particles s)\<rparr>"

definition StepSimulation :: "config \<Rightarrow> real \<Rightarrow> sim \<Rightarrow> sim option" where
  "StepSimulation cfg dt s =
     (let s1 = integrate_all cfg dt s in
      case build_grid cfg (particles s1) of None \<Rightarrow> None
      | Some grid \<Rightarrow> narrow_phase cfg grid s1)"

section \<open>Notions used in the statements\<close>

text \<open>
  The squared distance of two centres, computed as both \<^verbatim>\<open>ResolveCollision\<close> and the
  narrow phase compute it, and the distance itself.
\<close>

definition sq_dist :: "Particle list \<Rightarrow> nat \<Rightarrow> nat \<Rightarrow> real" where
  "sq_dist ps i j =
     (x (position (ps ! j)) - x (position (ps ! i))) * (x (position (ps ! j)) - x (position (ps ! i))) +
     (y (position (ps ! j)) - y (position (ps ! i))) * (y (position (ps ! j)) - y (position (ps ! i)))"

definition centre_distance :: "Particle \<Rightarrow> Particle \<Rightarrow> real" where
  "centre_distance p q =
     sqrt ((x (position q) - x (position p))\<^sup>2 + (y (position q) - y (position p))\<^sup>2)"

text \<open>
  The values of \<^verbatim>\<open>dx\<close>, \<^verbatim>\<open>dy\<close> and \<^verbatim>\<open>dist2\<close> after the test for coincident
  centres in \<^verbatim>\<open>ResolveCollision\<close>.
\<close>

definition normal_dx :: "Particle list \<Rightarrow> nat \<Rightarrow> nat \<Rightarrow> real" where
  "normal_dx ps i j =
     (if sq_dist ps i j = 0 then 1 / 1000 else x (position (ps ! j)) - x (position (ps ! i)))"

definition normal_dy :: "Particle list \<Rightarrow> nat \<Rightarrow> nat \<Rightarrow> real" where
  "normal_dy ps i j =
     (if sq_dist ps i j = 0 then 0 else y (position (ps ! j)) - y (position (ps ! i)))"

definition normal_d2 :: "Particle list \<Rightarrow> nat \<Rightarrow> nat \<Rightarrow> real" where
  "normal_d2 ps i j = (if sq_dist ps i j = 0 then 1 / 1000000 else sq_dist ps i j)"

text \<open>The whole collision branch as one update of the particle vector.\<close>

definition collide ::
  "config \<Rightarrow> nat \<Rightarrow> nat \<Rightarrow> nat \<Rightarrow> real \<Rightarrow> real \<Rightarrow> real \<Rightarrow> Particle list \<Rightarrow> Particle list" where
  "collide cfg k i j nx ny overlap ps =
     perturb cfg k i j (swap_velocity_y i j (swap_velocity_x i j (separate i j nx ny overlap ps)))"

text \<open>The number of logged pairs a particle takes part in.\<close>

definition contacts :: "nat \<Rightarrow> (nat \<times> nat) list \<Rightarrow> nat" where
  "contacts m L = length (filter (\<lambda>pq. fst pq = m \<or> snd pq = m) L)"

text \<open>
  The bound that the narrow phase maintains: a particle is at most one more \<open>radius\<close>
  beyond \<open>half - radius\<close> for every logged pair it takes part in.
\<close>

definition drift_bounded :: "config \<Rightarrow> sim \<Rightarrow> bool" where
  "drift_bounded cfg s \<longleftrightarrow>
     (\<forall>m < length (particles s).
        \<bar>x (position (particles s ! m))\<bar>
          \<le> half cfg - radius cfg + radius cfg * real (contacts m (resolved s)) \<and>
        \<bar>y (position (particles s ! m))\<bar>
          \<le> half cfg - radius cfg + radius cfg * real (contacts m (resolved s)))"

text \<open>
  Concrete inputs for the examples: a random source that always returns 0
  (\<^verbatim>\<open>std::rand\<close> yielding 0), one that always returns 1/2, particles and states.
\<close>

definition rand_low :: "nat \<Rightarrow> real" where
  "rand_low k = 0"

definition rand_mid :: "nat \<Rightarrow> real" where
  "rand_mid k = 1 / 2"

definition particle_at :: "real \<Rightarrow> real \<Rightarrow> real \<Rightarrow> real \<Rightarrow> Particle" where
  "particle_at px py vx vy = \<lparr>position = \<lparr>x = px, y = py\<rparr>, velocity = \<lparr>x = vx, y = vy\<rparr>\<rparr>"

definition world :: "Particle list \<Rightarrow> sim" where
  "world ps = \<lparr>particles = ps, rand_calls = 0, resolved = []\<rparr>"


section \<open>Wall handling\<close>

lemma half_eq: "half cfg = areaSize cfg / 2"
  by (simp add: half_def)




lemma bounce_axis_bound:
  assumes "radius cfg \<le> half cfg"
  shows "\<bar>fst (bounce_axis cfg dt pos vel)\<bar> \<le> half cfg - radius cfg"
  using assms by (auto simp add: bounce_axis_def Let_def)

lemma integrate_sel:
  "x (position (integrate cfg dt p)) = fst (bounce_axis cfg dt (x (position p)) (x (velocity p)))"
  "x (velocity (integrate cfg dt p)) = snd (bounce_axis cfg dt (x (position p)) (x (velocity p)))"
  "y (position (integrate cfg dt p)) = fst (bounce_axis cfg dt (y (position p)) (y (velocity p)))"
  "y (velocity (integrate cfg dt p)) = snd (bounce_axis cfg dt (y (position p)) (y (velocity p)))"
  by (simp_all add: integrate_def Let_def)



text \<open>
  Claim C9. If \<open>radius \<le> areaSize / 2\<close>, then right after the integration loop, before
  any collision is resolved, every particle lies within \<open>areaSize / 2 - radius\<close> of the
  origin on both axes, whatever its position and velocity were before the step.
\<close>

theorem integration_bound:
  assumes "radius cfg \<le> areaSize cfg / 2" and "k < length (particles s)"
  shows "length (particles (integrate_all cfg dt s)) = length (particles s) \<and>
         \<bar>x (position (particles (integrate_all cfg dt s) ! k))\<bar> \<le> areaSize cfg / 2 - radius cfg \<and>
         \<bar>y (position (particles (integrate_all cfg dt s) ! k))\<bar> \<le> areaSize cfg / 2 - radius cfg"
proof -
  have r: "radius cfg \<le> half cfg" using assms(1) by (simp add: half_eq)
  show ?thesis
    using assms(2) bounce_axis_bound [OF r]
    by (simp add: integrate_all_def integrate_sel half_eq)
qed

theorem integration_bound_witness:
  "radius (header_config rand_low) \<le> areaSize (header_config rand_low) / 2 \<and>
   (1::nat) < length (particles \<lparr>particles =
      [\<lparr>position = \<lparr>x = 0, y = 0\<rparr>, velocity = \<lparr>x = 1, y = 1\<rparr>\<rparr>,
       \<lparr>position = \<lparr>x = 5000, y = - 7000\<rparr>, velocity = \<lparr>x = 80, y = 3\<rparr>\<rparr>],
      rand_calls = 0, resolved = []\<rparr>) \<and>
   \<bar>x (position (particles (integrate_all (header_config rand_low) (1 / 60) \<lparr>particles =
      [\<lparr>position = \<lparr>x = 0, y = 0\<rparr>, velocity = \<lparr>x = 1, y = 1\<rparr>\<rparr>,
       \<lparr>position = \<lparr>x = 5000, y = - 7000\<rparr>, velocity = \<lparr>x = 80, y = 3\<rparr>\<rparr>],
      rand_calls = 0, resolved = []\<rparr>) ! 1))\<bar> \<le> 99 / 2 \<and>
   \<bar>y (position (particles (integrate_all (header_config rand_low) (1 / 60) \<lparr>particles =
      [\<lparr>position = \<lparr>x = 0, y = 0\<rparr>, velocity = \<lparr>x = 1, y = 1\<rparr>\<rparr>,
       \<lparr>position = \<lparr>x = 5000, y = - 7000\<rparr>, velocity = \<lparr>x = 80, y = 3\<rparr>\<rparr>],
      rand_calls = 0, resolved = []\<rparr>) ! 1))\<bar> \<le> 99 / 2"
  using integration_bound [of "header_config rand_low" 1 "\<lparr>particles =
      [\<lparr>position = \<lparr>x = 0, y = 0\<rparr>, velocity = \<lparr>x = 1, y = 1\<rparr>\<rparr>,
       \<lparr>position = \<lparr>x = 5000, y = - 7000\<rparr>, velocity = \<lparr>x = 80, y = 3\<rparr>\<rparr>],
      rand_calls = 0, resolved = []\<rparr>" "1 / 60"]
  by (simp add: header_config_def)

section \<open>Two concrete steps\<close>

text \<open>
  Both are computed by unfolding the definitions of the model on the given input.
\<close>

lemmas eval_defs = StepSimulation_def integrate_all_def integrate_def bounce_axis_def
  build_grid_def grid_insert_def cell_of_def fdiv_def narrow_phase_def narrow_particle_def
  candidates_def neighbourhood_def bucket_def narrow_pair_def ResolveCollision_def separate_def
  swap_velocity_x_def swap_velocity_y_def perturb_def upd_position_x_def upd_position_y_def
  upd_velocity_x_def upd_velocity_y_def half_def cellSize_def Let_def world_def particle_at_def
  visualize_config_def rand_low_def rand_mid_def

lemma upt_0_3: "[0..<3] = [0, 1, 2]"
  by (simp add: upt_rec)

lemma upt_0_2: "[0..<2] = [0, 1]"
  by (simp add: upt_rec)

lemma three_body_step:
  "StepSimulation (visualize_config rand_low) (1 / 60)
     (world [particle_at 296 0 0 0, particle_at 294 0 0 0, particle_at 295 0 0 0])
   = Some \<lparr>particles =
        [particle_at 301 0 (- (1 / 200)) (- (1 / 200)),
         particle_at 288 0 (- (3 / 200)) (- (3 / 200)),
         particle_at 296 0 (- (1 / 100)) (- (1 / 100))],
      rand_calls = 12, resolved = [(0, 1), (0, 2), (1, 2)]\<rparr>"
  by (simp add: eval_defs upt_0_3)

lemma two_body_step:
  "StepSimulation (visualize_config rand_low) (1 / 60)
     (world [particle_at 296 0 0 0, particle_at 294 0 0 0])
   = Some \<lparr>particles =
        [particle_at 299 0 (- (1 / 200)) (- (1 / 200)),
         particle_at 291 0 (- (1 / 200)) (- (1 / 200))],
      rand_calls = 4, resolved = [(0, 1)]\<rparr>"
  by (simp add: eval_defs upt_0_2)

section \<open>Properties of the collision resolution\<close>

lemmas upd_defs = upd_position_x_def upd_position_y_def upd_velocity_x_def upd_velocity_y_def

lemma upd_length [simp]:
  "length (upd_position_x k f ps) = length ps"
  "length (upd_position_y k f ps) = length ps"
  "length (upd_velocity_x k f ps) = length ps"
  "length (upd_velocity_y k f ps) = length ps"
  by (simp_all add: upd_defs)

lemma upd_nth_other [simp]:
  "m \<noteq> k \<Longrightarrow> upd_position_x k f ps ! m = ps ! m"
  "m \<noteq> k \<Longrightarrow> upd_position_y k f ps ! m = ps ! m"
  "m \<noteq> k \<Longrightarrow> upd_velocity_x k f ps ! m = ps ! m"
  "m \<noteq> k \<Longrightarrow> upd_velocity_y k f ps ! m = ps ! m"
  by (simp_all add: upd_defs)

lemma upd_nth_same [simp]:
  "k < length ps \<Longrightarrow> upd_position_x k f ps ! k = (ps ! k)\<lparr>position := (position (ps ! k))\<lparr>x := f (x (position (ps ! k)))\<rparr>\<rparr>"
  "k < length ps \<Longrightarrow> upd_position_y k f ps ! k = (ps ! k)\<lparr>position := (position (ps ! k))\<lparr>y := f (y (position (ps ! k)))\<rparr>\<rparr>"
  "k < length ps \<Longrightarrow> upd_velocity_x k f ps ! k = (ps ! k)\<lparr>velocity := (velocity (ps ! k))\<lparr>x := f (x (velocity (ps ! k)))\<rparr>\<rparr>"
  "k < length ps \<Longrightarrow> upd_velocity_y k f ps ! k = (ps ! k)\<lparr>velocity := (velocity (ps ! k))\<lparr>y := f (y (velocity (ps ! k)))\<rparr>\<rparr>"
  by (simp_all add: upd_defs)

lemma separate_length [simp]: "length (separate i j nx ny ov ps) = length ps"
  by (simp add: separate_def Let_def)

lemma separate_other [simp]: "m \<noteq> i \<Longrightarrow> m \<noteq> j \<Longrightarrow> separate i j nx ny ov ps ! m = ps ! m"
  by (simp add: separate_def Let_def)

lemma separate_fst:
  "i \<noteq> j \<Longrightarrow> i < length ps \<Longrightarrow> separate i j nx ny ov ps ! i =
     (ps ! i)\<lparr>position := \<lparr>x = x (position (ps ! i)) - nx * ov, y = y (position (ps ! i)) - ny * ov\<rparr>\<rparr>"
  by (simp add: separate_def Let_def)

lemma separate_snd:
  "j < length ps \<Longrightarrow> i \<noteq> j \<Longrightarrow> separate i j nx ny ov ps ! j =
     (ps ! j)\<lparr>position := \<lparr>x = x (position (ps ! j)) + nx * ov, y = y (position (ps ! j)) + ny * ov\<rparr>\<rparr>"
  by (simp add: separate_def Let_def)


lemma swap_length [simp]:
  "length (swap_velocity_x i j ps) = length ps"
  "length (swap_velocity_y i j ps) = length ps"
  by (simp_all add: swap_velocity_x_def swap_velocity_y_def Let_def)

lemma swap_other [simp]:
  "m \<noteq> i \<Longrightarrow> m \<noteq> j \<Longrightarrow> swap_velocity_x i j ps ! m = ps ! m"
  "m \<noteq> i \<Longrightarrow> m \<noteq> j \<Longrightarrow> swap_velocity_y i j ps ! m = ps ! m"
  by (simp_all add: swap_velocity_x_def swap_velocity_y_def Let_def)

lemma swap_x_fst:
  "i \<noteq> j \<Longrightarrow> i < length ps \<Longrightarrow> swap_velocity_x i j ps ! i =
     (ps ! i)\<lparr>velocity := (velocity (ps ! i))\<lparr>x := x (velocity (ps ! j))\<rparr>\<rparr>"
  by (simp add: swap_velocity_x_def Let_def)

lemma swap_x_snd:
  "i \<noteq> j \<Longrightarrow> j < length ps \<Longrightarrow> swap_velocity_x i j ps ! j =
     (ps ! j)\<lparr>velocity := (velocity (ps ! j))\<lparr>x := x (velocity (ps ! i))\<rparr>\<rparr>"
  by (simp add: swap_velocity_x_def Let_def)

lemma swap_y_fst:
  "i \<noteq> j \<Longrightarrow> i < length ps \<Longrightarrow> swap_velocity_y i j ps ! i =
     (ps ! i)\<lparr>velocity := (velocity (ps ! i))\<lparr>y := y (velocity (ps ! j))\<rparr>\<rparr>"
  by (simp add: swap_velocity_y_def Let_def)

lemma swap_y_snd:
  "i \<noteq> j \<Longrightarrow> j < length ps \<Longrightarrow> swap_velocity_y i j ps ! j =
     (ps ! j)\<lparr>velocity := (velocity (ps ! j))\<lparr>y := y (velocity (ps ! i))\<rparr>\<rparr>"
  by (simp add: swap_velocity_y_def Let_def)

lemma perturb_length [simp]: "length (perturb cfg k i j ps) = length ps"
  by (simp add: perturb_def Let_def)

lemma perturb_other [simp]: "m \<noteq> i \<Longrightarrow> m \<noteq> j \<Longrightarrow> perturb cfg k i j ps ! m = ps ! m"
  by (simp add: perturb_def Let_def)

lemma perturb_fst:
  "i \<noteq> j \<Longrightarrow> i < length ps \<Longrightarrow> perturb cfg k i j ps ! i =
     (ps ! i)\<lparr>velocity :=
        \<lparr>x = x (velocity (ps ! i)) + (rand_unit cfg k - 1 / 2) * perturbation cfg,
         y = y (velocity (ps ! i)) + (rand_unit cfg (k + 1) - 1 / 2) * perturbation cfg\<rparr>\<rparr>"
  by (simp add: perturb_def Let_def)

lemma perturb_snd:
  "i \<noteq> j \<Longrightarrow> j < length ps \<Longrightarrow> perturb cfg k i j ps ! j =
     (ps ! j)\<lparr>velocity :=
        \<lparr>x = x (velocity (ps ! j)) + (rand_unit cfg (k + 2) - 1 / 2) * perturbation cfg,
         y = y (velocity (ps ! j)) + (rand_unit cfg (k + 3) - 1 / 2) * perturbation cfg\<rparr>\<rparr>"
  by (simp add: perturb_def Let_def)

lemma collide_length [simp]: "length (collide cfg k i j nx ny ov ps) = length ps"
  by (simp add: collide_def)

lemma collide_other: "m \<noteq> i \<Longrightarrow> m \<noteq> j \<Longrightarrow> collide cfg k i j nx ny ov ps ! m = ps ! m"
  by (simp add: collide_def)

lemma collide_fst:
  assumes "i \<noteq> j" "i < length ps" "j < length ps"
  shows "collide cfg k i j nx ny ov ps ! i =
      \<lparr>position = \<lparr>x = x (position (ps ! i)) - nx * ov, y = y (position (ps ! i)) - ny * ov\<rparr>,
       velocity = \<lparr>x = x (velocity (ps ! j)) + (rand_unit cfg k - 1 / 2) * perturbation cfg,
                   y = y (velocity (ps ! j)) + (rand_unit cfg (k + 1) - 1 / 2) * perturbation cfg\<rparr>\<rparr>"
  using assms
  by (simp add: collide_def perturb_fst swap_y_fst swap_x_fst swap_x_snd separate_fst separate_snd)

lemma collide_snd:
  assumes "i \<noteq> j" "i < length ps" "j < length ps"
  shows "collide cfg k i j nx ny ov ps ! j =
      \<lparr>position = \<lparr>x = x (position (ps ! j)) + nx * ov, y = y (position (ps ! j)) + ny * ov\<rparr>,
       velocity = \<lparr>x = x (velocity (ps ! i)) + (rand_unit cfg (k + 2) - 1 / 2) * perturbation cfg,
                   y = y (velocity (ps ! i)) + (rand_unit cfg (k + 3) - 1 / 2) * perturbation cfg\<rparr>\<rparr>"
  using assms
  by (simp add: collide_def perturb_snd swap_y_snd swap_x_fst swap_x_snd separate_fst separate_snd)

lemma sq_dist_nonneg: "0 \<le> sq_dist ps i j"
  by (simp add: sq_dist_def)

lemma normal_d2_pos: "0 < normal_d2 ps i j"
  using sq_dist_nonneg [of ps i j] by (simp add: normal_d2_def)

lemma sqrt_normal_d2_pos: "0 < sqrt (normal_d2 ps i j)"
  using normal_d2_pos by simp

lemma centre_distance_sq_dist: "centre_distance (ps ! i) (ps ! j) = sqrt (sq_dist ps i j)"
  by (simp add: centre_distance_def sq_dist_def power2_eq_square)

lemma ResolveCollision_eq:
  "ResolveCollision cfg i j s =
     Some (if normal_d2 (particles s) i j < (2 * radius cfg) * (2 * radius cfg)
           then s\<lparr>particles :=
                    collide cfg (rand_calls s) i j
                      (normal_dx (particles s) i j / sqrt (normal_d2 (particles s) i j))
                      (normal_dy (particles s) i j / sqrt (normal_d2 (particles s) i j))
                      ((1 / 2) * (2 * radius cfg - sqrt (normal_d2 (particles s) i j)))
                      (particles s),
                  rand_calls := rand_calls s + 4\<rparr>
           else s)"
proof (cases "sq_dist (particles s) i j = 0")
  case True
  then show ?thesis
    unfolding ResolveCollision_def Let_def sq_dist_def [symmetric]
    by (simp add: fdiv_def collide_def normal_dx_def normal_dy_def normal_d2_def)
next
  case False
  then show ?thesis
    unfolding ResolveCollision_def Let_def sq_dist_def [symmetric]
    by (simp add: fdiv_def collide_def normal_dx_def normal_dy_def normal_d2_def)
qed


lemma sq_dist_same: "sq_dist ps i i = 0"
  by (simp add: sq_dist_def)

lemma stretch_distance:
  fixes dx dy d r :: real
  assumes d: "d = sqrt (dx * dx + dy * dy)" and pos: "0 < d" and r: "0 \<le> r"
  shows "sqrt ((dx + dx / d * (r - d))\<^sup>2 + (dy + dy / d * (r - d))\<^sup>2) = r"
proof -
  have dd: "d * d = dx * dx + dy * dy"
    using d by (simp add: power2_eq_square [symmetric] add_nonneg_nonneg)
  have ex: "dx + dx / d * (r - d) = dx * (r / d)" and ey: "dy + dy / d * (r - d) = dy * (r / d)"
    using pos by (simp_all add: field_simps)
  have "(dx * c)\<^sup>2 + (dy * c)\<^sup>2 = c\<^sup>2 * (dx * dx + dy * dy)" for c :: real
    by (simp add: power2_eq_square algebra_simps)
  then have "(dx * (r / d))\<^sup>2 + (dy * (r / d))\<^sup>2 = (r / d)\<^sup>2 * (dx * dx + dy * dy)" .
  also have "\<dots> = (r / d)\<^sup>2 * (d * d)"
    by (simp add: dd)
  also have "\<dots> = r\<^sup>2"
    using pos by (simp add: power2_eq_square)
  finally have "(dx + dx / d * (r - d))\<^sup>2 + (dy + dy / d * (r - d))\<^sup>2 = r\<^sup>2"
    unfolding ex ey .
  then have "sqrt ((dx + dx / d * (r - d))\<^sup>2 + (dy + dy / d * (r - d))\<^sup>2) = sqrt (r\<^sup>2)"
    by (rule arg_cong)
  also have "\<dots> = r"
    using r by simp
  finally show ?thesis .
qed

lemma resolve_overlapping:
  assumes i: "i < length (particles s)" and j: "j < length (particles s)"
    and pos: "0 < centre_distance (particles s ! i) (particles s ! j)"
    and ovl: "centre_distance (particles s ! i) (particles s ! j) < 2 * radius cfg"
  shows "\<exists>s'. ResolveCollision cfg i j s = Some s' \<and>
      x (position (particles s' ! i)) =
        x (position (particles s ! i)) -
        (2 * radius cfg - centre_distance (particles s ! i) (particles s ! j)) / 2 *
        ((x (position (particles s ! j)) - x (position (particles s ! i))) /
          centre_distance (particles s ! i) (particles s ! j)) \<and>
      y (position (particles s' ! i)) =
        y (position (particles s ! i)) -
        (2 * radius cfg - centre_distance (particles s ! i) (particles s ! j)) / 2 *
        ((y (position (particles s ! j)) - y (position (particles s ! i))) /
          centre_distance (particles s ! i) (particles s ! j)) \<and>
      x (position (particles s' ! j)) =
        x (position (particles s ! j)) +
        (2 * radius cfg - centre_distance (particles s ! i) (particles s ! j)) / 2 *
        ((x (position (particles s ! j)) - x (position (particles s ! i))) /
          centre_distance (particles s ! i) (particles s ! j)) \<and>
      y (position (particles s' ! j)) =
        y (position (particles s ! j)) +
        (2 * radius cfg - centre_distance (particles s ! i) (particles s ! j)) / 2 *
        ((y (position (particles s ! j)) - y (position (particles s ! i))) /
          centre_distance (particles s ! i) (particles s ! j)) \<and>
      centre_distance (particles s' ! i) (particles s' ! j) = 2 * radius cfg \<and>
      velocity (particles s' ! i) =
        \<lparr>x = x (velocity (particles s ! j)) + (rand_unit cfg (rand_calls s) - 1 / 2) * perturbation cfg,
         y = y (velocity (particles s ! j)) + (rand_unit cfg (rand_calls s + 1) - 1 / 2) * perturbation cfg\<rparr> \<and>
      velocity (particles s' ! j) =
        \<lparr>x = x (velocity (particles s ! i)) + (rand_unit cfg (rand_calls s + 2) - 1 / 2) * perturbation cfg,
         y = y (velocity (particles s ! i)) + (rand_unit cfg (rand_calls s + 3) - 1 / 2) * perturbation cfg\<rparr>"
proof -
  define ps where "ps = particles s"
  define d where "d = centre_distance (ps ! i) (ps ! j)"
  define dx where "dx = x (position (ps ! j)) - x (position (ps ! i))"
  define dy where "dy = y (position (ps ! j)) - y (position (ps ! i))"
  have d_sqrt: "d = sqrt (sq_dist ps i j)"
    by (simp add: d_def centre_distance_sq_dist)
  have d_pos: "0 < d" and d_lt: "d < 2 * radius cfg"
    using pos ovl by (simp_all add: d_def ps_def)
  have sq_pos: "0 < sq_dist ps i j"
    using d_pos d_sqrt by simp
  have ij: "i \<noteq> j"
    using sq_pos sq_dist_same [of ps i] by auto
  have sq_eq: "sq_dist ps i j = d * d"
    using sq_pos by (simp add: d_sqrt)
  have "d * d < (2 * radius cfg) * (2 * radius cfg)"
    using d_pos d_lt by (intro mult_strict_mono) simp_all
  moreover have nd2: "normal_d2 ps i j = sq_dist ps i j"
    using sq_pos by (simp add: normal_d2_def)
  ultimately have hit: "normal_d2 ps i j < (2 * radius cfg) * (2 * radius cfg)"
    by (simp add: sq_eq)
  have nd: "sqrt (normal_d2 ps i j) = d" "normal_dx ps i j = dx" "normal_dy ps i j = dy"
    using sq_pos by (simp_all add: normal_d2_def normal_dx_def normal_dy_def d_sqrt dx_def dy_def)
  define s' where "s' = s\<lparr>particles := collide cfg (rand_calls s) i j (dx / d) (dy / d)
      ((1 / 2) * (2 * radius cfg - d)) ps, rand_calls := rand_calls s + 4\<rparr>"
  have res: "ResolveCollision cfg i j s = Some s'"
    using hit by (simp add: ResolveCollision_eq ps_def [symmetric] nd s'_def)
  have len: "i < length ps" "j < length ps"
    using i j by (simp_all add: ps_def)
  have pi: "particles s' ! i = collide cfg (rand_calls s) i j (dx / d) (dy / d)
      ((1 / 2) * (2 * radius cfg - d)) ps ! i"
    and pj: "particles s' ! j = collide cfg (rand_calls s) i j (dx / d) (dy / d)
      ((1 / 2) * (2 * radius cfg - d)) ps ! j"
    by (simp_all add: s'_def)
  have xi: "x (position (particles s' ! i)) = x (position (ps ! i)) - (2 * radius cfg - d) / 2 * (dx / d)"
    and yi: "y (position (particles s' ! i)) = y (position (ps ! i)) - (2 * radius cfg - d) / 2 * (dy / d)"
    unfolding pi collide_fst [OF ij len] by (simp_all add: mult_ac)
  have xj: "x (position (particles s' ! j)) = x (position (ps ! j)) + (2 * radius cfg - d) / 2 * (dx / d)"
    and yj: "y (position (particles s' ! j)) = y (position (ps ! j)) + (2 * radius cfg - d) / 2 * (dy / d)"
    unfolding pj collide_snd [OF ij len] by (simp_all add: mult_ac)
  have ddef: "d = sqrt (dx * dx + dy * dy)"
    by (simp add: d_sqrt sq_dist_def dx_def dy_def)
  have ex: "x (position (particles s' ! j)) - x (position (particles s' ! i))
            = dx + dx / d * (2 * radius cfg - d)"
    and ey: "y (position (particles s' ! j)) - y (position (particles s' ! i))
            = dy + dy / d * (2 * radius cfg - d)"
    unfolding xi yi xj yj by (simp_all add: dx_def dy_def)
  have fin: "centre_distance (particles s' ! i) (particles s' ! j) = 2 * radius cfg"
    unfolding centre_distance_def ex ey
    using stretch_distance [OF ddef d_pos, of "2 * radius cfg"] d_pos d_lt by simp
  have vi: "velocity (particles s' ! i) =
        \<lparr>x = x (velocity (ps ! j)) + (rand_unit cfg (rand_calls s) - 1 / 2) * perturbation cfg,
         y = y (velocity (ps ! j)) + (rand_unit cfg (rand_calls s + 1) - 1 / 2) * perturbation cfg\<rparr>"
    unfolding pi collide_fst [OF ij len] by simp
  have vj: "velocity (particles s' ! j) =
        \<lparr>x = x (velocity (ps ! i)) + (rand_unit cfg (rand_calls s + 2) - 1 / 2) * perturbation cfg,
         y = y (velocity (ps ! i)) + (rand_unit cfg (rand_calls s + 3) - 1 / 2) * perturbation cfg\<rparr>"
    unfolding pj collide_snd [OF ij len] by simp
  show ?thesis
    using res xi yi xj yj fin vi vj
    unfolding d_def dx_def dy_def ps_def by blast
qed

text \<open>
  Claim C5. Over the reals, when \<^verbatim>\<open>ResolveCollision\<close> is applied to two particles
  whose centres are at a distance \<open>d\<close> with \<open>0 < d < 2 * radius\<close>, particle \<open>i\<close> is moved by
  \<open>(2 * radius - d) / 2\<close> against the unit vector from \<open>i\<close> to \<open>j\<close> and particle \<open>j\<close> by the
  same amount along it; afterwards the centres are exactly \<open>2 * radius\<close> apart.
\<close>

theorem separation_exact:
  assumes "i < length (particles s)" and "j < length (particles s)"
    and "0 < centre_distance (particles s ! i) (particles s ! j)"
    and "centre_distance (particles s ! i) (particles s ! j) < 2 * radius cfg"
  shows "\<exists>s'. ResolveCollision cfg i j s = Some s' \<and>
      x (position (particles s' ! i)) =
        x (position (particles s ! i)) -
        (2 * radius cfg - centre_distance (particles s ! i) (particles s ! j)) / 2 *
        ((x (position (particles s ! j)) - x (position (particles s ! i))) /
          centre_distance (particles s ! i) (particles s ! j)) \<and>
      y (position (particles s' ! i)) =
        y (position (particles s ! i)) -
        (2 * radius cfg - centre_distance (particles s ! i) (particles s ! j)) / 2 *
        ((y (position (particles s ! j)) - y (position (particles s ! i))) /
          centre_distance (particles s ! i) (particles s ! j)) \<and>
      x (position (particles s' ! j)) =
        x (position (particles s ! j)) +
        (2 * radius cfg - centre_distance (particles s ! i) (particles s ! j)) / 2 *
        ((x (position (particles s ! j)) - x (position (particles s ! i))) /
          centre_distance (particles s ! i) (particles s ! j)) \<and>
      y (position (particles s' ! j)) =
        y (position (particles s ! j)) +
        (2 * radius cfg - centre_distance (particles s ! i) (particles s ! j)) / 2 *
        ((y (position (particles s ! j)) - y (position (particles s ! i))) /
          centre_distance (particles s ! i) (particles s ! j)) \<and>
      centre_distance (particles s' ! i) (particles s' ! j) = 2 * radius cfg"
proof -
  obtain s' where "ResolveCollision cfg i j s = Some s'"
    and "x (position (particles s' ! i)) =
        x (position (particles s ! i)) -
        (2 * radius cfg - centre_distance (particles s ! i) (particles s ! j)) / 2 *
        ((x (position (particles s ! j)) - x (position (particles s ! i))) /
          centre_distance (particles s ! i) (particles s ! j))"
    and "y (position (particles s' ! i)) =
        y (position (particles s ! i)) -
        (2 * radius cfg - centre_distance (particles s ! i) (particles s ! j)) / 2 *
        ((y (position (particles s ! j)) - y (position (particles s ! i))) /
          centre_distance (particles s ! i) (particles s ! j))"
    and "x (position (particles s' ! j)) =
        x (position (particles s ! j)) +
        (2 * radius cfg - centre_distance (particles s ! i) (particles s ! j)) / 2 *
        ((x (position (particles s ! j)) - x (position (particles s ! i))) /
          centre_distance (particles s ! i) (particles s ! j))"
    and "y (position (particles s' ! j)) =
        y (position (particles s ! j)) +
        (2 * radius cfg - centre_distance (particles s ! i) (particles s ! j)) / 2 *
        ((y (position (particles s ! j)) - y (position (particles s ! i))) /
          centre_distance (particles s ! i) (particles s ! j))"
    and "centre_distance (particles s' ! i) (particles s' ! j) = 2 * radius cfg"
    using resolve_overlapping [OF assms] by blast
  then show ?thesis
    by (intro exI [of _ s'] conjI)
qed



text \<open>
  Claim C10. \<^verbatim>\<open>ResolveCollision(i, j)\<close> always returns, keeps the length of the
  particle vector and leaves every particle other than \<open>i\<close> and \<open>j\<close> as it was; when the
  squared distance of the pair is nonzero and at least \<open>(2 * radius)\<^sup>2\<close>, the whole
  state is unchanged.
\<close>

theorem ResolveCollision_frame:
  "\<exists>s'. ResolveCollision cfg i j s = Some s' \<and>
      length (particles s') = length (particles s) \<and>
      (\<forall>m. m \<noteq> i \<and> m \<noteq> j \<longrightarrow> particles s' ! m = particles s ! m) \<and>
      (sq_dist (particles s) i j \<noteq> 0 \<and>
       (2 * radius cfg) * (2 * radius cfg) \<le> sq_dist (particles s) i j \<longrightarrow> s' = s)"
  by (simp add: ResolveCollision_eq collide_other normal_d2_def)

subsection \<open>The collision theorems at concrete pairs\<close>

theorem separation_exact_witness:
  "(0::nat) < length (particles (world [particle_at 0 0 1 2, particle_at 3 4 (- 1) 0])) \<and>
   (1::nat) < length (particles (world [particle_at 0 0 1 2, particle_at 3 4 (- 1) 0])) \<and>
   centre_distance (particle_at 0 0 1 2) (particle_at 3 4 (- 1) 0) = 5 \<and>
   5 < 2 * radius (visualize_config rand_low) \<and>
   (\<exists>s'. ResolveCollision (visualize_config rand_low) 0 1
            (world [particle_at 0 0 1 2, particle_at 3 4 (- 1) 0]) = Some s' \<and>
         position (particles s' ! 0) = \<lparr>x = - (9 / 10), y = - (6 / 5)\<rparr> \<and>
         position (particles s' ! 1) = \<lparr>x = 39 / 10, y = 26 / 5\<rparr> \<and>
         centre_distance (particles s' ! 0) (particles s' ! 1) = 8)"
proof -
  have d: "centre_distance (particle_at 0 0 1 2) (particle_at 3 4 (- 1) 0) = 5"
    by (simp add: centre_distance_def particle_at_def)
  show ?thesis
    using separation_exact [of 0 "world [particle_at 0 0 1 2, particle_at 3 4 (- 1) 0]" 1
        "visualize_config rand_low"]
    by (simp add: d world_def) (auto simp add: visualize_config_def particle_at_def Vector2.equality)
qed


theorem ResolveCollision_frame_witness:
  "sq_dist [particle_at 0 0 1 2, particle_at 3 4 (- 1) 0, particle_at 20 0 7 7] 0 2 = 400 \<and>
   (2 * radius (visualize_config rand_low)) * (2 * radius (visualize_config rand_low)) = 64 \<and>
   ResolveCollision (visualize_config rand_low) 0 2
     (world [particle_at 0 0 1 2, particle_at 3 4 (- 1) 0, particle_at 20 0 7 7])
     = Some (world [particle_at 0 0 1 2, particle_at 3 4 (- 1) 0, particle_at 20 0 7 7]) \<and>
   (\<exists>s'. ResolveCollision (visualize_config rand_low) 0 1
            (world [particle_at 0 0 1 2, particle_at 3 4 (- 1) 0, particle_at 20 0 7 7]) = Some s' \<and>
         length (particles s') = 3 \<and>
         particles s' ! 2 = particle_at 20 0 7 7 \<and>
         particles s' ! 0 \<noteq> particle_at 0 0 1 2)"
proof -
  have q: "sq_dist [particle_at 0 0 1 2, particle_at 3 4 (- 1) 0, particle_at 20 0 7 7] 0 2 = 400"
    by (simp add: sq_dist_def particle_at_def)
  have far: "ResolveCollision (visualize_config rand_low) 0 2
     (world [particle_at 0 0 1 2, particle_at 3 4 (- 1) 0, particle_at 20 0 7 7])
     = Some (world [particle_at 0 0 1 2, particle_at 3 4 (- 1) 0, particle_at 20 0 7 7])"
    using ResolveCollision_frame [of "visualize_config rand_low" 0 2
        "world [particle_at 0 0 1 2, particle_at 3 4 (- 1) 0, particle_at 20 0 7 7]"]
    by (auto simp add: q world_def visualize_config_def)
  have near: "\<exists>s'. ResolveCollision (visualize_config rand_low) 0 1
            (world [particle_at 0 0 1 2, particle_at 3 4 (- 1) 0, particle_at 20 0 7 7]) = Some s' \<and>
         length (particles s') = 3 \<and>
         particles s' ! 2 = particle_at 20 0 7 7 \<and>
         particles s' ! 0 \<noteq> particle_at 0 0 1 2"
    using ResolveCollision_frame [of "visualize_config rand_low" 0 1
        "world [particle_at 0 0 1 2, particle_at 3 4 (- 1) 0, particle_at 20 0 7 7]"]
    by (simp add: eval_defs)
  show ?thesis
    using q far near by (simp add: visualize_config_def)
qed

section \<open>Properties of the grid\<close>

lemma cell_of_eq:
  "radius cfg \<noteq> 0 \<Longrightarrow>
   cell_of cfg pos = Some (\<lfloor>(x pos + half cfg) / cellSize cfg\<rfloor>, \<lfloor>(y pos + half cfg) / cellSize cfg\<rfloor>)"
  by (simp add: cell_of_def fdiv_def cellSize_def)

lemma for_each_append:
  "for_each body (as @ bs) s = (case for_each body as s of None \<Rightarrow> None | Some s' \<Rightarrow> for_each body bs s')"
  by (induction as arbitrary: s) (simp_all split: option.splits)

lemma for_each_total:
  assumes "\<And>a s. a \<in> set as \<Longrightarrow> \<exists>s'. body a s = Some s'"
  shows "\<exists>s'. for_each body as s = Some s'"
  using assms
proof (induction as arbitrary: s)
  case Nil
  then show ?case by simp
next
  case (Cons a as)
  obtain s1 where "body a s = Some s1"
    using Cons.prems [of a s] by auto
  moreover have "\<exists>s'. for_each body as s1 = Some s'"
    using Cons.IH Cons.prems by simp
  ultimately show ?case by simp
qed

lemma bucket_upd:
  "bucket (g(c0 \<mapsto> b)) c = (if c = c0 then b else bucket g c)"
  by (simp add: bucket_def)

lemma for_each_grid_insert:
  assumes "for_each (grid_insert cfg ps) ks g0 = Some g"
  shows "bucket g c = bucket g0 c @ filter (\<lambda>i. cell_of cfg (position (ps ! i)) = Some c) ks"
  using assms
proof (induction ks arbitrary: g0)
  case Nil
  then show ?case by simp
next
  case (Cons k ks)
  from Cons.prems obtain g1 where g1: "grid_insert cfg ps k g0 = Some g1"
    and rest: "for_each (grid_insert cfg ps) ks g1 = Some g"
    by (auto split: option.splits)
  from g1 obtain c0 where c0: "cell_of cfg (position (ps ! k)) = Some c0"
    and g1_eq: "g1 = g0(c0 \<mapsto> bucket g0 c0 @ [k])"
    by (auto simp add: grid_insert_def split: option.splits)
  have "bucket g c = bucket g1 c @ filter (\<lambda>i. cell_of cfg (position (ps ! i)) = Some c) ks"
    by (rule Cons.IH [OF rest])
  then show ?case
    by (simp add: g1_eq bucket_upd c0)
qed

lemma bucket_empty: "bucket Map.empty c = []"
  by (simp add: bucket_def)

lemma build_grid_bucket:
  assumes "build_grid cfg ps = Some g"
  shows "bucket g c = filter (\<lambda>i. cell_of cfg (position (ps ! i)) = Some c) [0..<length ps]"
  using for_each_grid_insert [OF assms [unfolded build_grid_def], of c]
  by (simp add: bucket_empty)

lemma build_grid_total:
  assumes "radius cfg \<noteq> 0"
  shows "\<exists>g. build_grid cfg ps = Some g"
  unfolding build_grid_def
  by (rule for_each_total) (simp add: grid_insert_def cell_of_eq [OF assms])

lemma neighbourhood_distinct: "distinct (neighbourhood c)"
  by (cases c) (simp add: neighbourhood_def)


lemma distinct_concat_filter:
  assumes "distinct cs" "distinct ks"
  shows "distinct (concat (map (\<lambda>c. filter (\<lambda>i. f i = Some c) ks) cs))"
  using assms by (induction cs) auto

lemma candidates_eq:
  assumes "build_grid cfg ps = Some g"
  shows "candidates g c =
     concat (map (\<lambda>c'. filter (\<lambda>i. cell_of cfg (position (ps ! i)) = Some c') [0..<length ps])
       (neighbourhood c))"
  by (simp add: candidates_def build_grid_bucket [OF assms] cong: map_cong)

lemma candidates_distinct:
  assumes "build_grid cfg ps = Some g"
  shows "distinct (candidates g c)"
  unfolding candidates_eq [OF assms]
  by (rule distinct_concat_filter) (simp_all add: neighbourhood_distinct)

lemma candidates_set:
  assumes "build_grid cfg ps = Some g"
  shows "j \<in> set (candidates g c) \<longleftrightarrow>
     j < length ps \<and> (\<exists>c' \<in> set (neighbourhood c). cell_of cfg (position (ps ! j)) = Some c')"
  unfolding candidates_eq [OF assms] by auto








section \<open>Properties of the narrow phase\<close>

lemma ResolveCollision_total: "\<exists>s'. ResolveCollision cfg i j s = Some s'"
  by (simp add: ResolveCollision_eq)

lemma ResolveCollision_keeps:
  assumes "ResolveCollision cfg i j s = Some s'"
  shows "resolved s' = resolved s" and "length (particles s') = length (particles s)"
  using assms by (auto simp add: ResolveCollision_eq split: if_splits)

lemma narrow_pair_cases:
  obtains (skip) "narrow_pair cfg i j s = Some s"
  | (hit) s' where "i < j" "sq_dist (particles s) i j < (2 * radius cfg) * (2 * radius cfg)"
      "narrow_pair cfg i j s = Some s'"
      "ResolveCollision cfg i j (s\<lparr>resolved := resolved s @ [(i, j)]\<rparr>) = Some s'"
proof (cases "i < j \<and> sq_dist (particles s) i j < (2 * radius cfg) * (2 * radius cfg)")
  case True
  obtain s' where s': "ResolveCollision cfg i j (s\<lparr>resolved := resolved s @ [(i, j)]\<rparr>) = Some s'"
    using ResolveCollision_total by blast
  with True have "narrow_pair cfg i j s = Some s'"
    by (simp add: narrow_pair_def Let_def sq_dist_def)
  with True s' show ?thesis by (intro hit) simp_all
next
  case False
  then have "narrow_pair cfg i j s = Some s"
    by (auto simp add: narrow_pair_def Let_def sq_dist_def)
  then show ?thesis by (rule skip)
qed

lemma narrow_pair_log:
  "\<exists>s'. narrow_pair cfg i j s = Some s' \<and> length (particles s') = length (particles s) \<and>
     (resolved s' = resolved s \<or> i < j \<and> resolved s' = resolved s @ [(i, j)])"
proof (cases rule: narrow_pair_cases [of cfg i j s])
  case skip
  then show ?thesis by simp
next
  case (hit s')
  then show ?thesis
    using ResolveCollision_keeps [OF hit(4)] by simp
qed

lemma inner_loop_log:
  assumes "distinct js"
  shows "\<exists>s' js'. for_each (narrow_pair cfg i) js s = Some s' \<and>
     length (particles s') = length (particles s) \<and>
     distinct js' \<and> set js' \<subseteq> set js \<and> (\<forall>j \<in> set js'. i < j) \<and>
     resolved s' = resolved s @ map (Pair i) js'"
  using assms
proof (induction js arbitrary: s)
  case Nil
  show ?case by simp
next
  case (Cons j js)
  obtain s1 where s1: "narrow_pair cfg i j s = Some s1"
    and len1: "length (particles s1) = length (particles s)"
    and log1: "resolved s1 = resolved s \<or> i < j \<and> resolved s1 = resolved s @ [(i, j)]"
    using narrow_pair_log [of cfg i j s] by blast
  have "distinct js" and fresh: "j \<notin> set js"
    using Cons.prems by simp_all
  then obtain s' js' where s': "for_each (narrow_pair cfg i) js s1 = Some s'"
    and len: "length (particles s') = length (particles s1)"
    and djs: "distinct js'" and sub: "set js' \<subseteq> set js" and gt: "\<forall>j \<in> set js'. i < j"
    and log: "resolved s' = resolved s1 @ map (Pair i) js'"
    using Cons.IH [of s1] by blast
  have run: "for_each (narrow_pair cfg i) (j # js) s = Some s'"
    using s1 s' by simp
  from log1 show ?case
  proof
    assume "resolved s1 = resolved s"
    then have "resolved s' = resolved s @ map (Pair i) js'"
      using log by simp
    moreover have "set js' \<subseteq> set (j # js)"
      using sub by auto
    ultimately show ?thesis
      using run len len1 gt djs by auto
  next
    assume h: "i < j \<and> resolved s1 = resolved s @ [(i, j)]"
    then have "resolved s' = resolved s @ map (Pair i) (j # js')"
      using log by simp
    moreover have "set (j # js') \<subseteq> set (j # js)"
      using sub by auto
    moreover have "distinct (j # js')"
      using djs sub fresh by auto
    moreover have "\<forall>k \<in> set (j # js'). i < k"
      using gt h by simp
    ultimately show ?thesis
      using run len len1 by (intro exI [of _ s'] exI [of _ "j # js'"]) simp
  qed
qed

lemma narrow_particle_log:
  assumes run: "narrow_particle cfg g i s = Some s'" and g: "build_grid cfg ps = Some g"
  shows "length (particles s') = length (particles s) \<and>
     (\<exists>js'. distinct js' \<and> (\<forall>j \<in> set js'. i < j \<and> j < length ps) \<and>
        resolved s' = resolved s @ map (Pair i) js')"
proof -
  from run obtain c where c: "cell_of cfg (position (particles s ! i)) = Some c"
    and loop: "for_each (narrow_pair cfg i) (candidates g c) s = Some s'"
    by (auto simp add: narrow_particle_def split: option.splits)
  obtain js' where len: "length (particles s') = length (particles s)"
    and djs: "distinct js'" and sub: "set js' \<subseteq> set (candidates g c)"
    and gt: "\<forall>j \<in> set js'. i < j"
    and log: "resolved s' = resolved s @ map (Pair i) js'"
    using inner_loop_log [OF candidates_distinct [OF g], of cfg i c s] loop by auto
  have "\<forall>j \<in> set js'. j < length ps"
    using sub candidates_set [OF g, of _ c] by blast
  then show ?thesis
    using len gt log djs by auto
qed

lemma narrow_particle_total:
  assumes "radius cfg \<noteq> 0"
  shows "\<exists>s'. narrow_particle cfg g i s = Some s'"
  using for_each_total [of _ "narrow_pair cfg i" s] narrow_pair_log [of cfg i]
  by (simp add: narrow_particle_def cell_of_eq [OF assms]) blast

lemma outer_loop_log:
  assumes run: "for_each (narrow_particle cfg g) ks s = Some s'" and g: "build_grid cfg ps = Some g"
    and dist: "distinct ks"
  shows "length (particles s') = length (particles s) \<and>
     (\<exists>L. distinct L \<and> (\<forall>(p, q) \<in> set L. p \<in> set ks \<and> p < q \<and> q < length ps) \<and>
        resolved s' = resolved s @ L)"
  using run dist
proof (induction ks arbitrary: s)
  case Nil
  then show ?case by simp
next
  case (Cons k ks)
  from Cons.prems(1) obtain s1 where s1: "narrow_particle cfg g k s = Some s1"
    and rest: "for_each (narrow_particle cfg g) ks s1 = Some s'"
    by (auto split: option.splits)
  obtain js' where len1: "length (particles s1) = length (particles s)"
    and djs: "distinct js'" and bnd: "\<forall>j \<in> set js'. k < j \<and> j < length ps"
    and log1: "resolved s1 = resolved s @ map (Pair k) js'"
    using narrow_particle_log [OF s1 g] by blast
  obtain L where len: "length (particles s') = length (particles s1)"
    and dL: "distinct L" and bL: "\<forall>(p, q) \<in> set L. p \<in> set ks \<and> p < q \<and> q < length ps"
    and log: "resolved s' = resolved s1 @ L"
    using Cons.IH [OF rest] Cons.prems(2) by auto
  have k: "k \<notin> set ks" using Cons.prems(2) by simp
  have "distinct (map (Pair k) js' @ L)"
    using djs dL bL k by (auto simp add: distinct_map inj_on_def)
  moreover have "\<forall>(p, q) \<in> set (map (Pair k) js' @ L). p \<in> set (k # ks) \<and> p < q \<and> q < length ps"
    using bnd bL by auto
  moreover have "resolved s' = resolved s @ (map (Pair k) js' @ L)"
    using log log1 by simp
  ultimately show ?case
    using len len1 by (intro conjI exI [of _ "map (Pair k) js' @ L"]) simp_all
qed

lemma integrate_all_keeps:
  "resolved (integrate_all cfg dt s) = resolved s"
  "rand_calls (integrate_all cfg dt s) = rand_calls s"
  "length (particles (integrate_all cfg dt s)) = length (particles s)"
  by (simp_all add: integrate_all_def)

lemma StepSimulation_total:
  assumes "radius cfg \<noteq> 0"
  shows "\<exists>s'. StepSimulation cfg dt s = Some s'"
proof -
  obtain g where g: "build_grid cfg (particles (integrate_all cfg dt s)) = Some g"
    using build_grid_total [OF assms] by blast
  have "\<exists>s'. narrow_phase cfg g (integrate_all cfg dt s) = Some s'"
    unfolding narrow_phase_def
    by (rule for_each_total) (rule narrow_particle_total [OF assms])
  then show ?thesis
    by (simp add: StepSimulation_def Let_def g)
qed

lemma StepSimulation_log:
  assumes "StepSimulation cfg dt s = Some s'"
  shows "length (particles s') = length (particles s) \<and>
     (\<exists>L. distinct L \<and> (\<forall>(p, q) \<in> set L. p < q \<and> q < length (particles s)) \<and>
        resolved s' = resolved s @ L)"
proof -
  define s1 where "s1 = integrate_all cfg dt s"
  from assms obtain g where g: "build_grid cfg (particles s1) = Some g"
    and run: "for_each (narrow_particle cfg g) [0..<length (particles s1)] s1 = Some s'"
    by (auto simp add: StepSimulation_def Let_def narrow_phase_def s1_def split: option.splits)
  show ?thesis
    using outer_loop_log [OF run g] by (auto simp add: s1_def integrate_all_keeps)
qed

lemma count_list_distinct:
  "distinct xs \<Longrightarrow> count_list xs z = (if z \<in> set xs then 1 else 0)"
  by (induction xs) auto





text \<open>
  Claim C3. During one call of \<^verbatim>\<open>StepSimulation\<close> the pairs handed to
  \<^verbatim>\<open>ResolveCollision\<close> (the entries \<open>L\<close> the step appends to the log) contain every
  unordered pair of indices at most once, in either order, and every logged pair
  \<open>(i, j)\<close> has \<open>i < j\<close>: no pair is processed twice and no particle is paired with
  itself. The step itself returns whenever the radius is not zero.
\<close>

theorem no_double_processing:
  "(radius cfg \<noteq> 0 \<longrightarrow> (\<exists>s'. StepSimulation cfg dt s = Some s')) \<and>
   (\<forall>s'. StepSimulation cfg dt s = Some s' \<longrightarrow>
      (\<exists>L. resolved s' = resolved s @ L \<and>
         (\<forall>i j. count_list L (i, j) + count_list L (j, i) \<le> 1) \<and>
         (\<forall>i j. (i, j) \<in> set L \<longrightarrow> i < j \<and> j < length (particles s))))"
proof (intro conjI allI impI)
  assume "radius cfg \<noteq> 0"
  then show "\<exists>s'. StepSimulation cfg dt s = Some s'"
    by (rule StepSimulation_total)
next
  fix s'
  assume "StepSimulation cfg dt s = Some s'"
  then obtain L where dL: "distinct L"
    and ord: "\<forall>(p, q) \<in> set L. p < q \<and> q < length (particles s)"
    and log: "resolved s' = resolved s @ L"
    using StepSimulation_log by blast
  have once: "count_list L (i, j) + count_list L (j, i) \<le> 1" for i j
  proof (cases "(i, j) \<in> set L")
    case True
    then have "i < j" using ord by auto
    then have "(j, i) \<notin> set L" using ord by force
    then show ?thesis by (simp add: count_list_distinct [OF dL])
  next
    case False
    then show ?thesis by (simp add: count_list_distinct [OF dL])
  qed
  show "\<exists>L. resolved s' = resolved s @ L \<and>
         (\<forall>i j. count_list L (i, j) + count_list L (j, i) \<le> 1) \<and>
         (\<forall>i j. (i, j) \<in> set L \<longrightarrow> i < j \<and> j < length (particles s))"
    using log once ord by (intro exI [of _ L]) auto
qed

theorem no_double_processing_witness:
  "radius (visualize_config rand_low) \<noteq> 0 \<and>
   (\<exists>s'. StepSimulation (visualize_config rand_low) (1 / 60)
           (world [particle_at 296 0 0 0, particle_at 294 0 0 0, particle_at 295 0 0 0]) = Some s' \<and>
         resolved s' = [(0, 1), (0, 2), (1, 2)] \<and>
         count_list (resolved s') (0, 1) + count_list (resolved s') (1, 0) = 1 \<and>
         count_list (resolved s') (2, 2) = 0)"
  using no_double_processing [of "visualize_config rand_low" "1 / 60"
      "world [particle_at 296 0 0 0, particle_at 294 0 0 0, particle_at 295 0 0 0]"]
  by (simp add: three_body_step) (simp add: visualize_config_def)

text \<open>
  Claim C7. When \<^verbatim>\<open>ResolveCollision\<close> is called on two distinct particles at the
  same position, the direction \<open>(1/1000, 0)\<close> stands in for the zero vector, so the
  divisor is \<open>1/1000\<close> and the call returns (a division by zero would make the model
  return \<open>None\<close>). If \<open>2 * radius\<close> exceeds \<open>1/1000\<close>, particle \<open>i\<close> is moved by
  \<open>(2 * radius - 1/1000) / 2\<close> in the negative and particle \<open>j\<close> in the positive
  x-direction, which leaves them \<open>2 * radius - 1/1000\<close> apart, and the velocities are
  exchanged and perturbed; if \<open>(2 * radius)\<^sup>2\<close> is at most \<open>1/1000000\<close>, nothing changes.
  A whole step never divides by zero either, unless the radius is zero.
\<close>

theorem coincident_resolution:
  assumes ij: "i \<noteq> j" and i: "i < length (particles s)" and j: "j < length (particles s)"
    and same: "position (particles s ! i) = position (particles s ! j)"
  shows "(\<exists>s'. ResolveCollision cfg i j s = Some s' \<and>
      (1 / 1000 < 2 * radius cfg \<longrightarrow>
         position (particles s' ! i) =
           \<lparr>x = x (position (particles s ! i)) - (2 * radius cfg - 1 / 1000) / 2,
            y = y (position (particles s ! i))\<rparr> \<and>
         position (particles s' ! j) =
           \<lparr>x = x (position (particles s ! j)) + (2 * radius cfg - 1 / 1000) / 2,
            y = y (position (particles s ! j))\<rparr> \<and>
         centre_distance (particles s' ! i) (particles s' ! j) = 2 * radius cfg - 1 / 1000 \<and>
         velocity (particles s' ! i) =
           \<lparr>x = x (velocity (particles s ! j)) + (rand_unit cfg (rand_calls s) - 1 / 2) * perturbation cfg,
            y = y (velocity (particles s ! j)) + (rand_unit cfg (rand_calls s + 1) - 1 / 2) * perturbation cfg\<rparr> \<and>
         velocity (particles s' ! j) =
           \<lparr>x = x (velocity (particles s ! i)) + (rand_unit cfg (rand_calls s + 2) - 1 / 2) * perturbation cfg,
            y = y (velocity (particles s ! i)) + (rand_unit cfg (rand_calls s + 3) - 1 / 2) * perturbation cfg\<rparr>) \<and>
      ((2 * radius cfg) * (2 * radius cfg) \<le> 1 / 1000000 \<longrightarrow> s' = s)) \<and>
    (radius cfg \<noteq> 0 \<longrightarrow> (\<exists>s'. StepSimulation cfg dt s = Some s'))"
proof -
  have z: "sq_dist (particles s) i j = 0"
    by (simp add: sq_dist_def same)
  have nd: "normal_d2 (particles s) i j = 1 / 1000000" "normal_dx (particles s) i j = 1 / 1000"
    "normal_dy (particles s) i j = 0"
    by (simp_all add: normal_d2_def normal_dx_def normal_dy_def z)
  have sq: "sqrt (1 / 1000000) = 1 / 1000"
    by (rule real_sqrt_unique) (simp_all add: power2_eq_square)
  have big: "(1::real) / 1000000 < (2 * radius cfg) * (2 * radius cfg)" if "1 / 1000 < 2 * radius cfg"
  proof -
    have "(1 / 1000) * (1 / 1000) < (2 * radius cfg) * (2 * radius cfg)"
      using that by (intro mult_strict_mono) simp_all
    then show ?thesis by simp
  qed
  have call: "\<exists>s'. ResolveCollision cfg i j s = Some s' \<and>
      (1 / 1000 < 2 * radius cfg \<longrightarrow>
         position (particles s' ! i) =
           \<lparr>x = x (position (particles s ! i)) - (2 * radius cfg - 1 / 1000) / 2,
            y = y (position (particles s ! i))\<rparr> \<and>
         position (particles s' ! j) =
           \<lparr>x = x (position (particles s ! j)) + (2 * radius cfg - 1 / 1000) / 2,
            y = y (position (particles s ! j))\<rparr> \<and>
         centre_distance (particles s' ! i) (particles s' ! j) = 2 * radius cfg - 1 / 1000 \<and>
         velocity (particles s' ! i) =
           \<lparr>x = x (velocity (particles s ! j)) + (rand_unit cfg (rand_calls s) - 1 / 2) * perturbation cfg,
            y = y (velocity (particles s ! j)) + (rand_unit cfg (rand_calls s + 1) - 1 / 2) * perturbation cfg\<rparr> \<and>
         velocity (particles s' ! j) =
           \<lparr>x = x (velocity (particles s ! i)) + (rand_unit cfg (rand_calls s + 2) - 1 / 2) * perturbation cfg,
            y = y (velocity (particles s ! i)) + (rand_unit cfg (rand_calls s + 3) - 1 / 2) * perturbation cfg\<rparr>) \<and>
      ((2 * radius cfg) * (2 * radius cfg) \<le> 1 / 1000000 \<longrightarrow> s' = s)"
    unfolding ResolveCollision_eq nd sq
    using big
    by (auto simp add: collide_fst [OF ij i j] collide_snd [OF ij i j] centre_distance_def same)
  have step: "radius cfg \<noteq> 0 \<longrightarrow> (\<exists>s'. StepSimulation cfg dt s = Some s')"
    using StepSimulation_total by blast
  from call step show ?thesis by (rule conjI)
qed

theorem coincident_resolution_witness:
  "(0::nat) \<noteq> 1 \<and>
   (0::nat) < length (particles (world [particle_at 1 1 1 2, particle_at 1 1 (- 1) 0])) \<and>
   (1::nat) < length (particles (world [particle_at 1 1 1 2, particle_at 1 1 (- 1) 0])) \<and>
   position (particle_at 1 1 1 2) = position (particle_at 1 1 (- 1) 0) \<and>
   1 / 1000 < 2 * radius (visualize_config rand_mid) \<and>
   radius (visualize_config rand_mid) \<noteq> 0 \<and>
   (\<exists>s'. ResolveCollision (visualize_config rand_mid) 0 1
            (world [particle_at 1 1 1 2, particle_at 1 1 (- 1) 0]) = Some s' \<and>
         position (particles s' ! 0) = \<lparr>x = - (5999 / 2000), y = 1\<rparr> \<and>
         position (particles s' ! 1) = \<lparr>x = 9999 / 2000, y = 1\<rparr> \<and>
         centre_distance (particles s' ! 0) (particles s' ! 1) = 7999 / 1000 \<and>
         velocity (particles s' ! 0) = \<lparr>x = - 1, y = 0\<rparr> \<and>
         velocity (particles s' ! 1) = \<lparr>x = 1, y = 2\<rparr>) \<and>
   (\<exists>s'. StepSimulation (visualize_config rand_mid) (1 / 60)
            (world [particle_at 1 1 1 2, particle_at 1 1 (- 1) 0]) = Some s')"
  using coincident_resolution [of 0 1 "world [particle_at 1 1 1 2, particle_at 1 1 (- 1) 0]"
      "visualize_config rand_mid" "1 / 60"]
  by (simp add: world_def particle_at_def)
     (auto simp add: visualize_config_def rand_mid_def Vector2.equality)

section \<open>Containment\<close>

lemma contacts_snoc:
  "contacts m (L @ [(i, j)]) = contacts m L + (if i = m \<or> j = m then 1 else 0)"
  by (simp add: contacts_def)

lemma normal_unit:
  "\<bar>normal_dx ps i j / sqrt (normal_d2 ps i j)\<bar> \<le> 1"
  "\<bar>normal_dy ps i j / sqrt (normal_d2 ps i j)\<bar> \<le> 1"
proof -
  have sq: "sqrt (1 / 1000000) = 1 / 1000"
    by (rule real_sqrt_unique) (simp_all add: power2_eq_square)
  have le: "\<bar>a\<bar> \<le> sqrt (a * a + b * b)" "\<bar>b\<bar> \<le> sqrt (a * a + b * b)" for a b :: real
    by (rule real_le_rsqrt; simp add: power2_eq_square)+
  have "\<bar>normal_dx ps i j\<bar> \<le> sqrt (normal_d2 ps i j)"
    using le(1) by (simp add: normal_dx_def normal_d2_def sq sq_dist_def)
  moreover have "\<bar>normal_dy ps i j\<bar> \<le> sqrt (normal_d2 ps i j)"
    using le(2) by (simp add: normal_dy_def normal_d2_def sq sq_dist_def)
  moreover note sqrt_normal_d2_pos [of ps i j]
  ultimately show "\<bar>normal_dx ps i j / sqrt (normal_d2 ps i j)\<bar> \<le> 1"
    and "\<bar>normal_dy ps i j / sqrt (normal_d2 ps i j)\<bar> \<le> 1"
    by simp_all
qed

lemma overlap_range:
  assumes r: "0 \<le> radius cfg" and hit: "normal_d2 ps i j < (2 * radius cfg) * (2 * radius cfg)"
  shows "0 \<le> (1 / 2) * (2 * radius cfg - sqrt (normal_d2 ps i j))"
    and "(1 / 2) * (2 * radius cfg - sqrt (normal_d2 ps i j)) \<le> radius cfg"
proof -
  have "sqrt (normal_d2 ps i j) < sqrt ((2 * radius cfg) * (2 * radius cfg))"
    using hit by (simp only: real_sqrt_less_iff)
  also have "\<dots> = \<bar>2 * radius cfg\<bar>"
    by (rule real_sqrt_abs2)
  also have "\<dots> = 2 * radius cfg"
    using r by simp
  finally show "0 \<le> (1 / 2) * (2 * radius cfg - sqrt (normal_d2 ps i j))" by simp
  show "(1 / 2) * (2 * radius cfg - sqrt (normal_d2 ps i j)) \<le> radius cfg"
    using sqrt_normal_d2_pos [of ps i j] by simp
qed

lemma push_bound:
  fixes n ov r :: real
  assumes "\<bar>n\<bar> \<le> 1" "0 \<le> ov" "ov \<le> r"
  shows "\<bar>n * ov\<bar> \<le> r"
proof -
  have "\<bar>n * ov\<bar> = \<bar>n\<bar> * ov" using assms(2) by (simp add: abs_mult)
  also have "\<dots> \<le> 1 * ov" using assms(1,2) by (intro mult_right_mono) simp_all
  finally show ?thesis using assms(3) by simp
qed

lemma ResolveCollision_drift:
  assumes r: "0 \<le> radius cfg" and ij: "i \<noteq> j"
    and i: "i < length (particles s)" and j: "j < length (particles s)"
    and run: "ResolveCollision cfg i j s = Some s'"
  shows "\<bar>x (position (particles s' ! m)) - x (position (particles s ! m))\<bar>
           \<le> (if m = i \<or> m = j then radius cfg else 0)"
    and "\<bar>y (position (particles s' ! m)) - y (position (particles s ! m))\<bar>
           \<le> (if m = i \<or> m = j then radius cfg else 0)"
proof -
  define ps where "ps = particles s"
  define nx where "nx = normal_dx ps i j / sqrt (normal_d2 ps i j)"
  define ny where "ny = normal_dy ps i j / sqrt (normal_d2 ps i j)"
  define ov where "ov = (1 / 2) * (2 * radius cfg - sqrt (normal_d2 ps i j))"
  have both: "\<bar>x (position (particles s' ! m)) - x (position (particles s ! m))\<bar>
           \<le> (if m = i \<or> m = j then radius cfg else 0) \<and>
        \<bar>y (position (particles s' ! m)) - y (position (particles s ! m))\<bar>
           \<le> (if m = i \<or> m = j then radius cfg else 0)"
  proof (cases "normal_d2 ps i j < (2 * radius cfg) * (2 * radius cfg)")
    case False
    then have "s' = s"
      using run by (simp add: ResolveCollision_eq ps_def)
    then show ?thesis using r by simp
  next
    case True
    then have s': "particles s' = collide cfg (rand_calls s) i j nx ny ov ps"
      using run by (auto simp add: ResolveCollision_eq ps_def nx_def ny_def ov_def)
    have ov: "0 \<le> ov" "ov \<le> radius cfg"
      unfolding ov_def by (rule overlap_range [OF r True])+
    have px: "\<bar>nx * ov\<bar> \<le> radius cfg" and py: "\<bar>ny * ov\<bar> \<le> radius cfg"
      unfolding nx_def ny_def by (rule push_bound [OF _ ov]; rule normal_unit)+
    have len: "i < length ps" "j < length ps"
      using i j by (simp_all add: ps_def)
    consider "m = i" | "m = j" | "m \<noteq> i" "m \<noteq> j" by blast
    then show ?thesis
    proof cases
      case 1
      then show ?thesis
        using px py by (simp add: s' collide_fst [OF ij len] ps_def [symmetric])
    next
      case 2
      then show ?thesis
        using px py by (simp add: s' collide_snd [OF ij len] ps_def [symmetric])
    next
      case 3
      then show ?thesis
        by (simp add: s' collide_other ps_def)
    qed
  qed
  then show "\<bar>x (position (particles s' ! m)) - x (position (particles s ! m))\<bar>
           \<le> (if m = i \<or> m = j then radius cfg else 0)"
    and "\<bar>y (position (particles s' ! m)) - y (position (particles s ! m))\<bar>
           \<le> (if m = i \<or> m = j then radius cfg else 0)"
    by simp_all
qed

lemma for_each_invariant:
  assumes "for_each body as s = Some s'" and "P s"
    and "\<And>a t t'. a \<in> set as \<Longrightarrow> P t \<Longrightarrow> body a t = Some t' \<Longrightarrow> P t'"
  shows "P s'"
  using assms
proof (induction as arbitrary: s)
  case Nil
  then show ?case by simp
next
  case (Cons a as)
  from Cons.prems(1) obtain s1 where s1: "body a s = Some s1" and rest: "for_each body as s1 = Some s'"
    by (auto split: option.splits)
  have "P s1"
    using Cons.prems(3) [of a s s1] Cons.prems(2) s1 by simp
  moreover have "P t'" if "b \<in> set as" "P t" "body b t = Some t'" for b t t'
    using Cons.prems(3) [of b t t'] that by simp
  ultimately show ?case
    by (rule Cons.IH [OF rest])
qed

lemma narrow_pair_drift:
  assumes r: "0 \<le> radius cfg" and inv: "drift_bounded cfg s"
    and i: "i < length (particles s)" and j: "j < length (particles s)"
    and run: "narrow_pair cfg i j s = Some s'"
  shows "drift_bounded cfg s' \<and> length (particles s') = length (particles s)"
proof (cases rule: narrow_pair_cases [of cfg i j s])
  case skip
  with run have "s' = s" by simp
  with inv show ?thesis by simp
next
  case (hit t)
  with run have t: "t = s'" by simp
  define s0 where "s0 = s\<lparr>resolved := resolved s @ [(i, j)]\<rparr>"
  have rc: "ResolveCollision cfg i j s0 = Some s'"
    using hit(4) t by (simp add: s0_def)
  have ps0: "particles s0 = particles s" by (simp add: s0_def)
  have ij: "i \<noteq> j" using hit(1) by simp
  have log: "resolved s' = resolved s @ [(i, j)]"
    and len: "length (particles s') = length (particles s)"
    using ResolveCollision_keeps [OF rc] by (simp_all add: s0_def)
  have i0: "i < length (particles s0)" and j0: "j < length (particles s0)"
    using i j by (simp_all add: ps0)
  have "\<bar>x (position (particles s' ! m))\<bar>
          \<le> half cfg - radius cfg + radius cfg * real (contacts m (resolved s')) \<and>
        \<bar>y (position (particles s' ! m))\<bar>
          \<le> half cfg - radius cfg + radius cfg * real (contacts m (resolved s'))"
    if m: "m < length (particles s)" for m
  proof -
    have old: "\<bar>x (position (particles s ! m))\<bar>
          \<le> half cfg - radius cfg + radius cfg * real (contacts m (resolved s))"
      "\<bar>y (position (particles s ! m))\<bar>
          \<le> half cfg - radius cfg + radius cfg * real (contacts m (resolved s))"
      using inv m by (simp_all add: drift_bounded_def)
    have mv: "\<bar>x (position (particles s' ! m)) - x (position (particles s ! m))\<bar>
           \<le> (if m = i \<or> m = j then radius cfg else 0)"
      "\<bar>y (position (particles s' ! m)) - y (position (particles s ! m))\<bar>
           \<le> (if m = i \<or> m = j then radius cfg else 0)"
      using ResolveCollision_drift [OF r ij i0 j0 rc, of m] by (simp_all add: ps0)
    have cnt: "radius cfg * real (contacts m (resolved s')) =
        radius cfg * real (contacts m (resolved s)) + (if m = i \<or> m = j then radius cfg else 0)"
      by (auto simp add: log contacts_snoc algebra_simps)
    show ?thesis
      using old mv unfolding cnt by (auto split: if_splits)
  qed
  then show ?thesis
    by (simp add: drift_bounded_def len)
qed

lemma narrow_particle_drift:
  assumes r: "0 \<le> radius cfg" and inv: "drift_bounded cfg s"
    and g: "build_grid cfg ps = Some g" and n: "length ps = length (particles s)"
    and i: "i < length (particles s)"
    and run: "narrow_particle cfg g i s = Some s'"
  shows "drift_bounded cfg s' \<and> length (particles s') = length (particles s)"
proof -
  from run obtain c where loop: "for_each (narrow_pair cfg i) (candidates g c) s = Some s'"
    by (auto simp add: narrow_particle_def split: option.splits)
  have "drift_bounded cfg s' \<and> length (particles s') = length ps"
  proof (rule for_each_invariant [OF loop])
    show "drift_bounded cfg s \<and> length (particles s) = length ps"
      using inv n by simp
  next
    fix j t t'
    assume "j \<in> set (candidates g c)"
      and t: "drift_bounded cfg t \<and> length (particles t) = length ps"
      and step: "narrow_pair cfg i j t = Some t'"
    then have "j < length (particles t)" "i < length (particles t)"
      using candidates_set [OF g, of j c] i n by simp_all
    then show "drift_bounded cfg t' \<and> length (particles t') = length ps"
      using narrow_pair_drift [OF r _ _ _ step] t by simp
  qed
  then show ?thesis using n by simp
qed

lemma integrate_all_drift:
  assumes r: "0 \<le> radius cfg" and fit: "radius cfg \<le> half cfg"
  shows "drift_bounded cfg (integrate_all cfg dt s)"
proof -
  have "\<bar>fst (bounce_axis cfg dt pos vel)\<bar> \<le> half cfg - radius cfg + radius cfg * real c"
    for pos vel and c :: nat
  proof -
    have "0 \<le> radius cfg * real c" using r by simp
    with bounce_axis_bound [OF fit, of dt pos vel] show ?thesis by linarith
  qed
  then show ?thesis
    by (simp add: drift_bounded_def integrate_all_def integrate_sel)
qed

lemma StepSimulation_drift:
  assumes r: "0 \<le> radius cfg" and fit: "radius cfg \<le> half cfg"
    and run: "StepSimulation cfg dt s = Some s'"
  shows "drift_bounded cfg s'"
proof -
  define s1 where "s1 = integrate_all cfg dt s"
  from run obtain g where g: "build_grid cfg (particles s1) = Some g"
    and loop: "for_each (narrow_particle cfg g) [0..<length (particles s1)] s1 = Some s'"
    by (auto simp add: StepSimulation_def Let_def narrow_phase_def s1_def split: option.splits)
  have "drift_bounded cfg s' \<and> length (particles s') = length (particles s1)"
  proof (rule for_each_invariant [OF loop])
    show "drift_bounded cfg s1 \<and> length (particles s1) = length (particles s1)"
      using integrate_all_drift [OF r fit] by (simp add: s1_def)
  next
    fix i t t'
    assume "i \<in> set [0..<length (particles s1)]"
      and t: "drift_bounded cfg t \<and> length (particles t) = length (particles s1)"
      and step: "narrow_particle cfg g i t = Some t'"
    then have "i < length (particles t)" by simp
    then show "drift_bounded cfg t' \<and> length (particles t') = length (particles s1)"
      using narrow_particle_drift [OF r _ g _ _ step] t by simp
  qed
  then show ?thesis by simp
qed

text \<open>
  The containment stated for whole steps does not hold. Three particles at rest near the
  wall \<open>x = +300\<close>, all inside the domain: the narrow phase pushes particle 0 away
  from particle 1 and then, in the same scan, away from particle 2, and nothing clamps
  a position after the integration loop. Particle 0 ends at \<open>x = 301\<close>.
\<close>

theorem containment_counterexample:
  "StepSimulation (visualize_config rand_low) (1 / 60)
     (world [particle_at 296 0 0 0, particle_at 294 0 0 0, particle_at 295 0 0 0])
   = Some \<lparr>particles =
        [particle_at 301 0 (- (1 / 200)) (- (1 / 200)),
         particle_at 288 0 (- (3 / 200)) (- (3 / 200)),
         particle_at 296 0 (- (1 / 100)) (- (1 / 100))],
      rand_calls = 12, resolved = [(0, 1), (0, 2), (1, 2)]\<rparr> \<and>
   \<not> \<bar>x (position (particle_at 301 0 (- (1 / 200)) (- (1 / 200))))\<bar>
       \<le> areaSize (visualize_config rand_low) / 2"
  by (simp add: three_body_step) (simp add: particle_at_def visualize_config_def)

text \<open>
  Claim C1, as amended. When \<open>0 < radius \<le> areaSize / 2\<close>, a step returns, keeps the
  number of particles, and leaves every particle within
  \<open>areaSize / 2 - radius + radius * k\<close> of the origin on both axes, where \<open>k\<close> is the
  number of pairs resolved in this step that the particle takes part in. In particular
  every particle that takes part in at most one resolved pair satisfies
  \<open>\<bar>x\<bar> \<le> areaSize / 2\<close> and \<open>\<bar>y\<bar> \<le> areaSize / 2\<close> after the step, for any state
  before it.
\<close>

theorem containment_bound:
  assumes r: "0 < radius cfg" and fit: "radius cfg \<le> areaSize cfg / 2"
    and fresh: "resolved s = []"
  shows "\<exists>s'. StepSimulation cfg dt s = Some s' \<and>
      length (particles s') = length (particles s) \<and>
      (\<forall>m < length (particles s).
         \<bar>x (position (particles s' ! m))\<bar>
           \<le> areaSize cfg / 2 - radius cfg + radius cfg * real (contacts m (resolved s')) \<and>
         \<bar>y (position (particles s' ! m))\<bar>
           \<le> areaSize cfg / 2 - radius cfg + radius cfg * real (contacts m (resolved s')) \<and>
         (contacts m (resolved s') \<le> 1 \<longrightarrow>
            \<bar>x (position (particles s' ! m))\<bar> \<le> areaSize cfg / 2 \<and>
            \<bar>y (position (particles s' ! m))\<bar> \<le> areaSize cfg / 2))"
proof -
  obtain s' where run: "StepSimulation cfg dt s = Some s'"
    using StepSimulation_total [of cfg dt s] r by auto
  have len: "length (particles s') = length (particles s)"
    using StepSimulation_log [OF run] by simp
  have inv: "drift_bounded cfg s'"
    using StepSimulation_drift [OF _ _ run] r fit by (simp add: half_eq)
  have "\<bar>x (position (particles s' ! m))\<bar>
           \<le> areaSize cfg / 2 - radius cfg + radius cfg * real (contacts m (resolved s')) \<and>
         \<bar>y (position (particles s' ! m))\<bar>
           \<le> areaSize cfg / 2 - radius cfg + radius cfg * real (contacts m (resolved s')) \<and>
         (contacts m (resolved s') \<le> 1 \<longrightarrow>
            \<bar>x (position (particles s' ! m))\<bar> \<le> areaSize cfg / 2 \<and>
            \<bar>y (position (particles s' ! m))\<bar> \<le> areaSize cfg / 2)"
    if m: "m < length (particles s)" for m
  proof -
    have b: "\<bar>x (position (particles s' ! m))\<bar>
           \<le> areaSize cfg / 2 - radius cfg + radius cfg * real (contacts m (resolved s'))"
      "\<bar>y (position (particles s' ! m))\<bar>
           \<le> areaSize cfg / 2 - radius cfg + radius cfg * real (contacts m (resolved s'))"
      using inv m len by (simp_all add: drift_bounded_def half_eq)
    have "radius cfg * real (contacts m (resolved s')) \<le> radius cfg * 1"
      if "contacts m (resolved s') \<le> 1"
      using that r by (intro mult_left_mono) simp_all
    with b show ?thesis by auto
  qed
  with run len show ?thesis by blast
qed

theorem containment_bound_witness:
  "0 < radius (visualize_config rand_low) \<and>
   radius (visualize_config rand_low) \<le> areaSize (visualize_config rand_low) / 2 \<and>
   resolved (world [particle_at 296 0 0 0, particle_at 294 0 0 0]) = [] \<and>
   (\<exists>s'. StepSimulation (visualize_config rand_low) (1 / 60)
           (world [particle_at 296 0 0 0, particle_at 294 0 0 0]) = Some s' \<and>
         length (particles s') = 2 \<and>
         contacts 0 (resolved s') = 1 \<and>
         x (position (particles s' ! 0)) = 299 \<and>
         \<bar>x (position (particles s' ! 0))\<bar> \<le> areaSize (visualize_config rand_low) / 2)"
  using containment_bound [of "visualize_config rand_low"
      "world [particle_at 296 0 0 0, particle_at 294 0 0 0]" "1 / 60"]
  by (simp add: two_body_step) (simp add: visualize_config_def world_def particle_at_def contacts_def)

section \<open>The head-on scenario\<close>








end
